theory Spec2Isabelle
  imports Main "HOL-Library.Word" "HOL-Library.Signed_Division"
begin

unbundle bit_operations_syntax

section \<open>The WAL record decoder (package wal, decoder.go)\<close>

subsection \<open>Data\<close>

type_synonym byte = "8 word"
type_synonym int64 = "64 word"
type_synonym uint32 = "32 word"

text \<open>
  The errors a decode call can return. \<open>EOF\<close> is io.EOF, \<open>ErrUnexpectedEOF\<close> is
  io.ErrUnexpectedEOF, \<open>ErrSizeLimit\<close> is the error built by fmt.Errorf at the entry size
  check, \<open>ErrUnmarshal\<close> is whatever error the record schema's Unmarshal reports,
  \<open>ErrCRCMismatch\<close> is the error of Validate, and \<open>ErrIO\<close> is any other error of the
  underlying file.
\<close>

datatype error = EOF | ErrUnexpectedEOF | ErrSizeLimit | ErrUnmarshal | ErrCRCMismatch | ErrIO string

text \<open>walpb.Record: \<open>Type int64\<close>, \<open>Crc uint32\<close>, \<open>Data []byte\<close>.\<close>

record wrecord =
  Type :: int64
  Crc :: uint32
  Data :: "byte list"

text \<open>
  Modelled from the spec: fileutil.FileBufReader is not part of the sources at hand. The
  input contract asks of a segment reader (a) sequential byte reads and (b) a total size
  query. \<open>rbuf\<close> holds the bytes not yet read, \<open>rfail\<close> says how the reader ends once they
  are used up (\<open>None\<close>: a clean end of file, \<open>Some m\<close>: an I/O error), and \<open>rsize\<close> is
  the answer of \<open>FileInfo().Size()\<close>.
\<close>

record reader =
  rbuf :: "byte list"
  rfail :: "string option"
  rsize :: int64

text \<open>
  The decoder struct. The mutex is left out: a call runs from start to end under it.
  The checksum accumulator is a \<open>hash.Hash32\<close>, kept abstract as a value of type \<open>'h\<close>.
\<close>

record 'h decoder =
  brs :: "reader list"
  lastValidOff :: int64
  crc :: 'h

text \<open>
  The collaborators of the decoder that live in other packages are parameters of the
  model: the record schema's \<open>Unmarshal\<close>, the checksum package (\<open>crc.New\<close> with the
  fixed table, \<open>Write\<close>, \<open>Sum32\<close>) and the constant \<open>crcType\<close> of the record types.
\<close>

record 'h extern =
  Unmarshal :: "byte list \<Rightarrow> wrecord option"
  crcNew :: "uint32 \<Rightarrow> 'h"
  crcWrite :: "'h \<Rightarrow> byte list \<Rightarrow> 'h"
  crcSum32 :: "'h \<Rightarrow> uint32"
  crcType :: int64

definition minSectorSize :: int64 where
  "minSectorSize = 512"

definition frameSizeBytes :: int64 where
  "frameSizeBytes = 8"

definition newDecoder :: "'h extern \<Rightarrow> reader list \<Rightarrow> 'h decoder" where
  "newDecoder E r = \<lparr>brs = r, lastValidOff = 0, crc = crcNew E 0\<rparr>"

subsection \<open>Reading from a segment\<close>

text \<open>
  io.ReadFull: reads exactly \<open>n\<close> bytes. With fewer bytes left it returns what there is
  and an error: io.EOF when nothing was read, io.ErrUnexpectedEOF after a partial read,
  and the reader's own error when the reader fails.
\<close>

definition readFull :: "nat \<Rightarrow> reader \<Rightarrow> error option \<times> byte list \<times> reader" where
  "readFull n r =
     (if n \<le> length (rbuf r) then (None, take n (rbuf r), r\<lparr>rbuf := drop n (rbuf r)\<rparr>)
      else (case rfail r of
              Some m \<Rightarrow> (Some (ErrIO m), rbuf r, r\<lparr>rbuf := []\<rparr>)
            | None \<Rightarrow>
                if rbuf r = [] then (Some EOF, [], r)
                else (Some ErrUnexpectedEOF, rbuf r, r\<lparr>rbuf := []\<rparr>)))"

text \<open>binary.LittleEndian: the first byte is the least significant one.\<close>

fun littleEndian :: "byte list \<Rightarrow> int64" where
  "littleEndian [] = 0"
| "littleEndian (b # bs) = ucast b OR push_bit 8 (littleEndian bs)"

text \<open>readInt64: binary.Read of eight bytes; on an error the value stays 0.\<close>

definition readInt64 :: "reader \<Rightarrow> error option \<times> int64 \<times> reader" where
  "readInt64 r =
     (case readFull 8 r of
        (None, bs, r') \<Rightarrow> (None, littleEndian bs, r')
      | (Some e, bs, r') \<Rightarrow> (Some e, 0, r'))"

subsection \<open>Frame size\<close>

definition decodeFrameSize :: "int64 \<Rightarrow> int64 \<times> int64" where
  "decodeFrameSize lenField =
     (let recBytes = lenField AND NOT (push_bit 56 0xff);
          padBytes = (if lenField <s 0 then drop_bit 56 lenField AND 0x7 else 0)
      in (recBytes, padBytes))"

text \<open>
  Modelled from the spec: the encoder of the frame header belongs to the writer, which is
  not part of the sources at hand. The wire format puts recBytes in bits 0 to 55 and, when
  padding is present, sets the sign bit 63 and puts padBytes in bits 56 to 58.
\<close>

definition encodeFrameSize :: "int64 \<Rightarrow> int64 \<Rightarrow> int64" where
  "encodeFrameSize recBytes padBytes =
     (if padBytes \<noteq> 0 then recBytes OR push_bit 56 (0x80 OR padBytes) else recBytes)"

subsection \<open>Torn entries\<close>

text \<open>Go's \<open>%\<close> on int64 truncates towards zero: the remainder has the sign of the dividend.\<close>

definition rem64 :: "int64 \<Rightarrow> int64 \<Rightarrow> int64" where
  "rem64 a b = word_of_int (sint a smod sint b)"

definition sectorLen :: "int64 \<Rightarrow> nat" where
  "sectorLen fileOff = nat (sint (minSectorSize - rem64 fileOff minSectorSize))"

lemma sint_small_int:
  "- (2 ^ 63) \<le> k \<Longrightarrow> k < 2 ^ 63 \<Longrightarrow> sint (word_of_int k :: int64) = k"
  by (simp add: sint_sbintrunc' signed_take_bit_int_eq_self)

lemma sint_sector_rest:
  "sint (minSectorSize - rem64 fileOff minSectorSize) = 512 - (sint fileOff smod 512)"
proof -
  have r: "sint fileOff smod 512 \<in> {- \<bar>512\<bar> + 1 .. \<bar>512\<bar> - 1}"
    by (rule smod_int_range) simp
  have "minSectorSize - rem64 fileOff minSectorSize
          = (word_of_int (512 - (sint fileOff smod 512)) :: int64)"
    by (simp add: minSectorSize_def rem64_def)
  moreover have "sint (word_of_int (512 - (sint fileOff smod 512)) :: int64)
          = 512 - (sint fileOff smod 512)"
    using r by (intro sint_small_int) auto
  ultimately show ?thesis by simp
qed

lemma sectorLen_pos: "0 < sectorLen fileOff"
proof -
  have "sint fileOff smod 512 \<in> {- \<bar>512\<bar> + 1 .. \<bar>512\<bar> - 1}"
    by (rule smod_int_range) simp
  then show ?thesis
    by (simp add: sectorLen_def sint_sector_rest)
qed

text \<open>The first loop of isTornEntry: split data on sector boundaries.\<close>

function splitSectors :: "int64 \<Rightarrow> nat \<Rightarrow> byte list \<Rightarrow> byte list list" where
  "splitSectors fileOff curOff data =
     (if curOff < length data then
        (let chunkLen = (if sectorLen fileOff > length data - curOff
                         then length data - curOff else sectorLen fileOff)
         in take chunkLen (drop curOff data)
              # splitSectors (fileOff + of_nat chunkLen) (curOff + chunkLen) data)
      else [])"
  by pat_completeness auto
termination
proof (relation "measure (\<lambda>(fileOff, curOff, data). length data - curOff)")
  show "wf (measure (\<lambda>(fileOff, curOff, data). length data - curOff))"
    by simp
next
  fix fileOff :: int64 and curOff :: nat and data :: "byte list" and x :: nat
  assume lt: "curOff < length data"
    and x: "x = (if length data - curOff < sectorLen fileOff
                 then length data - curOff else sectorLen fileOff)"
  have "0 < x" using lt x sectorLen_pos [of fileOff] by simp
  then show "((fileOff + word_of_nat x, curOff + x, data), (fileOff, curOff, data))
          \<in> measure (\<lambda>(fileOff, curOff, data). length data - curOff)"
    using lt by simp
qed

declare splitSectors.simps [simp del]

text \<open>The inner loop: is every byte of the sector zero?\<close>

fun isZero :: "byte list \<Rightarrow> bool" where
  "isZero [] = True"
| "isZero (v # sect) = (if v \<noteq> 0 then False else isZero sect)"

text \<open>The second loop: is there a sector chunk that is all zero?\<close>

fun anyZeroSector :: "byte list list \<Rightarrow> bool" where
  "anyZeroSector [] = False"
| "anyZeroSector (sect # chunks) = (if isZero sect then True else anyZeroSector chunks)"

definition isTornEntry :: "'h decoder \<Rightarrow> byte list \<Rightarrow> bool" where
  "isTornEntry d data =
     (if length (brs d) \<noteq> 1 then False
      else anyZeroSector (splitSectors (lastValidOff d + frameSizeBytes) 0 data))"

subsection \<open>Decoding one record\<close>

text \<open>
  Modelled from the spec: walpb.Record.Validate is not part of the sources at hand. It
  compares the record's declared checksum with the accumulated value; a mismatch is an
  error.
\<close>

definition Validate :: "wrecord \<Rightarrow> uint32 \<Rightarrow> error option" where
  "Validate rec crc32 = (if Crc rec = crc32 then None else Some ErrCRCMismatch)"

text \<open>
  One pass through the body of decodeRecord. The body either returns (an error or the
  record, and the decoder as the call leaves it) or ends in the call of itself on the
  decoder with the front reader dropped; \<open>Retry\<close> stands for that call. The readers are
  pointers in the source, so the bytes a read consumes are gone from the reader in the
  list as well: the model writes the reader back.
\<close>

datatype ('s, 'a) outcome = Retry 's | Return 'a

definition decodeStep ::
  "'h extern \<Rightarrow> 'h decoder \<Rightarrow> ('h decoder, (error + wrecord) \<times> 'h decoder) outcome" where
  "decodeStep E d =
     (case brs d of
        [] \<Rightarrow> Return (Inl EOF, d)
      | fileBufReader # rest \<Rightarrow>
          (case readInt64 fileBufReader of
             (err, l, r1) \<Rightarrow>
               if err = Some EOF \<or> (err = None \<and> l = 0) then
                 (if rest = [] then Return (Inl EOF, d\<lparr>brs := []\<rparr>)
                  else Retry (d\<lparr>brs := rest, lastValidOff := 0\<rparr>))
               else
                 (case err of
                    Some e \<Rightarrow> Return (Inl e, d\<lparr>brs := r1 # rest\<rparr>)
                  | None \<Rightarrow>
                      (case decodeFrameSize l of
                         (recBytes, padBytes) \<Rightarrow>
                           let maxEntryLimit = rsize r1 - lastValidOff d - padBytes in
                           if maxEntryLimit <s recBytes
                           then Return (Inl ErrSizeLimit, d\<lparr>brs := r1 # rest\<rparr>)
                           else
                             (case readFull (unat (recBytes + padBytes)) r1 of
                                (err2, data, r2) \<Rightarrow>
                                  let d1 = d\<lparr>brs := r2 # rest\<rparr> in
                                  (case err2 of
                                     Some e \<Rightarrow>
                                       Return (Inl (if e = EOF then ErrUnexpectedEOF else e), d1)
                                   | None \<Rightarrow>
                                       (case Unmarshal E (take (unat recBytes) data) of
                                          None \<Rightarrow>
                                            Return (Inl (if isTornEntry d1 data
                                                         then ErrUnexpectedEOF
                                                         else ErrUnmarshal), d1)
                                        | Some rec \<Rightarrow>
                                            if Type rec \<noteq> crcType E then
                                              (let d2 = d1\<lparr>crc := crcWrite E (crc d1) (Data rec)\<rparr> in
                                               case Validate rec (crcSum32 E (crc d2)) of
                                                 Some e \<Rightarrow>
                                                   Return (Inl (if isTornEntry d2 data
                                                                then ErrUnexpectedEOF
                                                                else e), d2)
                                               | None \<Rightarrow>
                                                   Return (Inr rec,
                                                     d2\<lparr>lastValidOff := lastValidOff d2
                                                        + (frameSizeBytes + recBytes + padBytes)\<rparr>))
                                            else
                                              Return (Inr rec,
                                                d1\<lparr>lastValidOff := lastValidOff d1
                                                   + (frameSizeBytes + recBytes + padBytes)\<rparr>))))))))"

lemma decodeStep_Retry_shrinks:
  "decodeStep E d = Retry d' \<Longrightarrow> length (brs d') < length (brs d)"
  by (auto simp add: decodeStep_def Let_def
      split: list.splits prod.splits if_splits option.splits)

function decodeRecord :: "'h extern \<Rightarrow> 'h decoder \<Rightarrow> (error + wrecord) \<times> 'h decoder" where
  "decodeRecord E d =
     (case decodeStep E d of
        Retry d' \<Rightarrow> decodeRecord E d'
      | Return res \<Rightarrow> res)"
  by pat_completeness auto
termination
  by (relation "measure (\<lambda>(E, d). length (brs d))") (auto dest: decodeStep_Retry_shrinks)

declare decodeRecord.simps [simp del]

text \<open>decode: reset the record, take the lock, decode.\<close>

definition decode :: "'h extern \<Rightarrow> 'h decoder \<Rightarrow> (error + wrecord) \<times> 'h decoder" where
  "decode E d = decodeRecord E d"

definition updateCRC :: "'h extern \<Rightarrow> uint32 \<Rightarrow> 'h decoder \<Rightarrow> 'h decoder" where
  "updateCRC E prevCrc d = d\<lparr>crc := crcNew E prevCrc\<rparr>"

definition lastCRC :: "'h extern \<Rightarrow> 'h decoder \<Rightarrow> uint32" where
  "lastCRC E d = crcSum32 E (crc d)"

definition lastOffset :: "'h decoder \<Rightarrow> int64" where
  "lastOffset d = lastValidOff d"

text \<open>
  The same recursion with a bound on the number of passes: \<open>None\<close> when the bound is
  used up before the body returns.
\<close>

fun decodeRecordWithin ::
  "nat \<Rightarrow> 'h extern \<Rightarrow> 'h decoder \<Rightarrow> ((error + wrecord) \<times> 'h decoder) option" where
  "decodeRecordWithin 0 E d = None"
| "decodeRecordWithin (Suc n) E d =
     (case decodeStep E d of
        Retry d' \<Rightarrow> decodeRecordWithin n E d'
      | Return res \<Rightarrow> Some res)"

section \<open>Properties\<close>

subsection \<open>The frame header\<close>

lemma rec_low56: "l AND NOT (push_bit 56 0xff) = take_bit 56 (l :: int64)"
proof -
  have "NOT (push_bit 56 (0xff :: int64)) = mask 56"
    by (simp add: mask_eq_exp_minus_1)
  then show ?thesis
    by (simp only: take_bit_eq_mask)
qed

lemma neg_iff_bit63: "(l :: int64) <s 0 \<longleftrightarrow> bit l 63"
  using bit_last_iff [of l] by (simp add: word_sless_alt)

lemma seven_mask: "(7 :: int64) = mask 3"
  by (simp add: mask_eq_exp_minus_1)

lemma pad_take: "drop_bit 56 (l :: int64) AND 7 = take_bit 3 (drop_bit 56 l)"
  unfolding seven_mask by (simp only: take_bit_eq_mask)

lemma decodeFrameSize_low: "fst (decodeFrameSize l) = take_bit 56 l"
  unfolding decodeFrameSize_def Let_def rec_low56 by simp

lemma decodeFrameSize_pad:
  "snd (decodeFrameSize l) = (if bit l 63 then take_bit 3 (drop_bit 56 l) else 0)"
  unfolding decodeFrameSize_def Let_def neg_iff_bit63 pad_take by simp

lemma small_rec: "(r :: int64) < 2 ^ 56 \<Longrightarrow> take_bit 56 r = r"
  using less_mask_eq [of r 56] by (simp only: take_bit_eq_mask)

lemma small_pad: 
  assumes "(p :: int64) \<le> 7" shows "take_bit 3 p = p"
proof -
  have "p < 2 ^ 3" using assms by (simp add: word_le_nat_alt word_less_nat_alt)
  then show ?thesis using less_mask_eq [of p 3] by (simp only: take_bit_eq_mask)
qed

lemma small_rec_bit: "(r :: int64) < 2 ^ 56 \<Longrightarrow> bit r n \<Longrightarrow> n < 56"
  using small_rec [of r] bit_take_bit_iff [of 56 r n] by simp

lemma small_pad_bit: "(p :: int64) \<le> 7 \<Longrightarrow> bit p n \<Longrightarrow> n < 3"
  using small_pad [of p] bit_take_bit_iff [of 3 p n] by simp

lemma decodeFrameSize_encodeFrameSize:
  assumes r: "(recBytes :: int64) < 2 ^ 56" and p: "(padBytes :: int64) \<le> 7"
  shows "decodeFrameSize (encodeFrameSize recBytes padBytes) = (recBytes, padBytes)"
proof (cases "padBytes = 0")
  case True
  have nb: "\<not> bit recBytes 63"
    using small_rec_bit [OF r, of 63] by auto
  show ?thesis
    using True nb small_rec [OF r]
    by (simp add: prod_eq_iff decodeFrameSize_low decodeFrameSize_pad encodeFrameSize_def)
next
  case False
  define h :: int64 where "h = push_bit 7 1 OR padBytes"
  have h: "(0x80 :: int64) OR padBytes = h" by (simp add: h_def)
  have low: "take_bit 56 (recBytes OR push_bit 56 h) = recBytes"
    by (rule bit_eqI) (auto simp add: bit_simps dest: small_rec_bit [OF r])
  have sign: "bit (recBytes OR push_bit 56 h) 63"
    by (simp add: bit_simps h_def)
  have pad: "take_bit 3 (drop_bit 56 (recBytes OR push_bit 56 h)) = padBytes"
    by (rule bit_eqI) (auto simp add: bit_simps h_def dest: small_rec_bit [OF r] small_pad_bit [OF p])
  show ?thesis
    using False low sign pad
    by (simp add: prod_eq_iff decodeFrameSize_low decodeFrameSize_pad encodeFrameSize_def h)
qed


lemma sint_eq_uint64:
  assumes "uint (w :: int64) < 2 ^ 63" shows "sint w = uint w"
proof -
  have "- (2 ^ 63) \<le> uint w"
    by (rule order_trans [OF _ uint_ge_0]) simp
  then show ?thesis
    unfolding sint_uint using assms by (simp add: signed_take_bit_int_eq_self)
qed

lemma uint_low: "uint (take_bit 56 (l :: int64)) = uint l mod 2 ^ 56"
  by (simp only: unsigned_take_bit_eq) (simp only: take_bit_eq_mod)

lemma uint_pad: "uint (take_bit 3 (drop_bit 56 (l :: int64))) = (uint l div 2 ^ 56) mod 2 ^ 3"
proof -
  have t: "take_bit LENGTH(64) (uint l) = uint l"
    by (rule bintr_uint) simp
  show ?thesis
    by (simp only: unsigned_take_bit_eq unsigned_drop_bit_eq t)
       (simp add: take_bit_eq_mod drop_bit_eq_div)
qed

lemma sint_low: "sint (take_bit 56 (l :: int64)) = uint l mod 2 ^ 56"
proof -
  have "uint l mod 2 ^ 56 < 2 ^ 56" by simp
  moreover have "(2 :: int) ^ 56 < 2 ^ 63" by simp
  ultimately have "uint (take_bit 56 l) < 2 ^ 63" unfolding uint_low by (rule less_trans)
  then show ?thesis using uint_low sint_eq_uint64 by simp
qed

lemma sint_pad: "sint (take_bit 3 (drop_bit 56 (l :: int64))) = (uint l div 2 ^ 56) mod 2 ^ 3"
proof -
  have "(uint l div 2 ^ 56) mod 2 ^ 3 < 2 ^ 3" by simp
  moreover have "(2 :: int) ^ 3 < 2 ^ 63" by simp
  ultimately have "uint (take_bit 3 (drop_bit 56 l)) < 2 ^ 63" unfolding uint_pad by (rule less_trans)
  then show ?thesis using uint_pad sint_eq_uint64 by simp
qed

lemma mod8_range: "0 \<le> (k :: int) mod 8 \<and> k mod 8 \<le> 7"
  by presburger

text \<open>
  C5. For all recBytes below 2^56 and padBytes from 0 to 7, the header written per the wire
  format decodes to exactly the pair (recBytes, padBytes). decodeFrameSize has no error
  path: for every 64-bit header, recBytes is the low 56 bits read as an unsigned number,
  and padBytes is bits 56 to 58 when the header is negative and 0 otherwise, so it always
  lies between 0 and 7.
\<close>

theorem decodeFrameSize_inverts:
  "(recBytes < 2 ^ 56 \<and> padBytes \<le> 7 \<longrightarrow>
      decodeFrameSize (encodeFrameSize recBytes padBytes) = (recBytes, padBytes))
   \<and> sint (fst (decodeFrameSize l)) = uint l mod 2 ^ 56
   \<and> sint (snd (decodeFrameSize l)) = (if sint l < 0 then (uint l div 2 ^ 56) mod 8 else 0)
   \<and> 0 \<le> sint (snd (decodeFrameSize l)) \<and> sint (snd (decodeFrameSize l)) \<le> 7"
proof -
  have b: "bit l 63 \<longleftrightarrow> sint l < 0"
    using bit_last_iff [of l] by simp
  have p: "sint (snd (decodeFrameSize l)) = (if sint l < 0 then (uint l div 2 ^ 56) mod 8 else 0)"
    using sint_pad [of l] by (simp add: decodeFrameSize_pad b)
  have "0 \<le> sint (snd (decodeFrameSize l)) \<and> sint (snd (decodeFrameSize l)) \<le> 7"
    unfolding p using mod8_range [of "uint l div 2 ^ 56"] by simp
  then show ?thesis
    using p decodeFrameSize_encodeFrameSize [of recBytes padBytes] by (simp add: decodeFrameSize_low sint_low)
qed

theorem decodeFrameSize_inverts_witness:
  "(37 :: int64) < 2 ^ 56 \<and> (3 :: int64) \<le> 7
   \<and> decodeFrameSize (encodeFrameSize 37 3) = (37, 3)"
  using decodeFrameSize_inverts [of 37 3 0] by simp

end
